theory Spec2Isabelle
  imports Main "HOL-Library.Word" "HOL-Library.Log_Nat"
begin

unbundle bit_operations_syntax

section \<open>The transaction layer behind \<^verbatim>\<open>ecrt.h\<close>\<close>

text \<open>
  \<^verbatim>\<open>ec_master.hpp\<close> talks to the field bus through the functions of \<^verbatim>\<open>ecrt.h\<close>
  (\<^verbatim>\<open>ecrt_slave_config_create_sdo_request\<close>, \<^verbatim>\<open>ecrt_sdo_request_read\<close>,
  \<^verbatim>\<open>ecrt_sdo_request_state\<close>, \<^verbatim>\<open>ecrt_sdo_request_data\<close>). That library is an external
  collaborator: the header only calls it. Pointers are addresses, \<open>NULL\<close> is address 0.
\<close>

type_synonym ptr = nat

definition NULL :: ptr where
  "NULL = 0"

text \<open>
  Modelled from the spec: the request states of the transaction layer (\<^verbatim>\<open>ec_request_state_t\<close>
  of \<^verbatim>\<open>ecrt.h\<close>, which is not part of the sources). Section 3: a mailbox request has a state
  in {Unused, Busy, Success, Error}.
\<close>

datatype ec_request_state_t =
  EC_REQUEST_UNUSED | EC_REQUEST_BUSY | EC_REQUEST_SUCCESS | EC_REQUEST_ERROR

text \<open>
  Modelled from the spec: the request object \<^verbatim>\<open>ec_sdo_request_t\<close> that the layer owns: its
  state and its transport buffer (the bytes \<^verbatim>\<open>ecrt_sdo_request_data\<close> points to).
\<close>

record ec_sdo_request_t =
  req_state :: ec_request_state_t
  req_data :: "8 word list"

text \<open>
  Modelled from the spec: the layer's store of request objects, by address. Addresses
  \<open>1 .. allocated\<close> hold the requests created so far; \<open>free_slots\<close> is how many more
  the layer can still create (when it is 0, creation fails and returns \<open>NULL\<close>).
\<close>

record ecrt =
  request_at :: "ptr \<Rightarrow> ec_sdo_request_t"
  allocated :: nat
  free_slots :: nat

text \<open>
  Modelled from the spec: \<^verbatim>\<open>ecrt_slave_config_create_sdo_request(sc, index, subindex, size)\<close>.
  A new request is Unused ("a request that is never armed reports Unused") and reserves
  \<open>size\<close> bytes of transport buffer. The result is the new request's address, or
  \<open>NULL\<close> when the request object cannot be created.
\<close>

definition ecrt_slave_config_create_sdo_request ::
  "ptr \<Rightarrow> 16 word \<Rightarrow> 8 word \<Rightarrow> 64 word \<Rightarrow> ecrt \<Rightarrow> ptr \<times> ecrt" where
  "ecrt_slave_config_create_sdo_request sc index subindex sz bus =
     (if free_slots bus = 0 then (NULL, bus)
      else
        (Suc (allocated bus),
         bus\<lparr>request_at := (request_at bus)
               (Suc (allocated bus) :=
                  \<lparr>req_state = EC_REQUEST_UNUSED, req_data = replicate (unat sz) 0\<rparr>),
            allocated := Suc (allocated bus),
            free_slots := free_slots bus - 1\<rparr>))"

text \<open>
  Modelled from the spec: \<^verbatim>\<open>ecrt_sdo_request_read\<close> arms the request: "initiateRead() arms
  the request (transitions it toward Busy)".
\<close>

definition ecrt_sdo_request_read :: "ptr \<Rightarrow> ecrt \<Rightarrow> ecrt" where
  "ecrt_sdo_request_read req bus =
     bus\<lparr>request_at := (request_at bus)(req := (request_at bus req)\<lparr>req_state := EC_REQUEST_BUSY\<rparr>)\<rparr>"

definition ecrt_sdo_request_state :: "ptr \<Rightarrow> ecrt \<Rightarrow> ec_request_state_t" where
  "ecrt_sdo_request_state req bus = req_state (request_at bus req)"

definition ecrt_sdo_request_data :: "ptr \<Rightarrow> ecrt \<Rightarrow> 8 word list" where
  "ecrt_sdo_request_data req bus = req_data (request_at bus req)"

text \<open>
  Modelled from the spec: what a poll of the transport does to a request ("transitions
  forward only"): a Busy request completes with the bytes the transport wrote into its
  buffer, or fails; a request in any other state is left alone.
\<close>

definition transport_complete :: "ptr \<Rightarrow> 8 word list \<Rightarrow> ecrt \<Rightarrow> ecrt" where
  "transport_complete req bytes bus =
     (if req_state (request_at bus req) = EC_REQUEST_BUSY
      then bus\<lparr>request_at := (request_at bus)
                 (req := \<lparr>req_state = EC_REQUEST_SUCCESS, req_data = bytes\<rparr>)\<rparr>
      else bus)"

definition transport_fail :: "ptr \<Rightarrow> ecrt \<Rightarrow> ecrt" where
  "transport_fail req bus =
     (if req_state (request_at bus req) = EC_REQUEST_BUSY
      then bus\<lparr>request_at := (request_at bus)
                 (req := (request_at bus req)\<lparr>req_state := EC_REQUEST_ERROR\<rparr>)\<rparr>
      else bus)"

section \<open>\<^verbatim>\<open>class SDORequest\<close>\<close>

text \<open>
  The private members \<^verbatim>\<open>request_\<close>, \<^verbatim>\<open>size_\<close>, \<^verbatim>\<open>index_\<close>, \<^verbatim>\<open>subindex_\<close> and the public
  \<^verbatim>\<open>slave_\<close> (an \<^verbatim>\<open>EcSlave*\<close>). A name cannot end in an underscore here, so the member
  \<^verbatim>\<open>x_\<close> is the field \<open>sdo_x\<close>.
\<close>

record SDORequest =
  sdo_slave :: ptr
  sdo_request :: ptr
  sdo_size :: "64 word"
  sdo_index :: "16 word"
  sdo_subindex :: "8 word"

datatype exception = Runtime_error string

text \<open>
  The constructor: the member initialisers, then \<^verbatim>\<open>if (!request_) throw std::runtime_error(...)\<close>.
  The result is the exception or the object, with the layer as the library call left it.
\<close>

definition SDORequest_new ::
  "ptr \<Rightarrow> 16 word \<Rightarrow> 8 word \<Rightarrow> 64 word \<Rightarrow> ptr \<Rightarrow> ecrt \<Rightarrow> (exception + SDORequest) \<times> ecrt" where
  "SDORequest_new slave_config index subindex sz slave bus =
     (let (request, bus') = ecrt_slave_config_create_sdo_request slave_config index subindex sz bus
      in if request = NULL
         then (Inl (Runtime_error ''Failed to create SDO request''), bus')
         else (Inr \<lparr>sdo_slave = slave, sdo_request = request, sdo_size = sz,
                    sdo_index = index, sdo_subindex = subindex\<rparr>, bus'))"

definition initiateRead :: "SDORequest \<Rightarrow> ecrt \<Rightarrow> ecrt" where
  "initiateRead r bus = ecrt_sdo_request_read (sdo_request r) bus"

definition isComplete :: "SDORequest \<Rightarrow> ecrt \<Rightarrow> bool" where
  "isComplete r bus = (ecrt_sdo_request_state (sdo_request r) bus = EC_REQUEST_SUCCESS)"

definition isUnsed :: "SDORequest \<Rightarrow> ecrt \<Rightarrow> bool" where
  "isUnsed r bus = (ecrt_sdo_request_state (sdo_request r) bus = EC_REQUEST_UNUSED)"

definition getData :: "SDORequest \<Rightarrow> ecrt \<Rightarrow> 8 word list" where
  "getData r bus = ecrt_sdo_request_data (sdo_request r) bus"

text \<open>
  \<^verbatim>\<open>memcpy(&value, data, sizeof(uint16_t))\<close> into a \<^verbatim>\<open>uint16_t\<close>: the first two bytes of the
  buffer, the first one the low byte and the second one the high byte (the host is
  little-endian, as the x86-64 and AArch64 machines the driver runs on). Reading two bytes
  from a buffer that holds fewer is undefined in C++: \<open>None\<close>.
\<close>

fun memcpy_uint16 :: "8 word list \<Rightarrow> 16 word option" where
  "memcpy_uint16 (b0 # b1 # rest) = Some (word_cat b1 b0)"
| "memcpy_uint16 _ = None"

text \<open>
  The one effect of \<^verbatim>\<open>processData()\<close> is the virtual call \<^verbatim>\<open>slave_->processSDO(index_, value)\<close>
  on the owning device; \<^verbatim>\<open>EcSlave\<close> is an external collaborator, so the call itself is the
  result: the device, the object index and the value.
\<close>

datatype slave_call = ProcessSDO ptr "16 word" "16 word"

definition processData :: "SDORequest \<Rightarrow> ecrt \<Rightarrow> slave_call option" where
  "processData r bus =
     (let data = ecrt_sdo_request_data (sdo_request r) bus
      in case memcpy_uint16 data of
           None \<Rightarrow> None
         | Some v \<Rightarrow> Some (ProcessSDO (sdo_slave r) (sdo_index r) v))"

definition getIndex :: "SDORequest \<Rightarrow> 16 word" where
  "getIndex r = sdo_index r"

definition getSubindex :: "SDORequest \<Rightarrow> 8 word" where
  "getSubindex r = sdo_subindex r"

subsection \<open>Sequences of calls on one request\<close>

text \<open>
  A request in use: the object, the layer it lives in and the calls delivered to devices
  so far. An event is a call of a member function, or a poll of the transport that
  completes or fails the request.
\<close>

datatype sdo_event =
  InitiateRead | IsComplete | IsUnsed | GetData | ProcessData | GetIndex | GetSubindex
| TransportComplete "8 word list" | TransportFail

record sdo_world =
  object :: SDORequest
  layer :: ecrt
  delivered :: "slave_call list"

fun sdo_step :: "sdo_event \<Rightarrow> sdo_world \<Rightarrow> sdo_world option" where
  "sdo_step InitiateRead w = Some (w\<lparr>layer := initiateRead (object w) (layer w)\<rparr>)"
| "sdo_step ProcessData w =
     (case processData (object w) (layer w) of
        None \<Rightarrow> None
      | Some c \<Rightarrow> Some (w\<lparr>delivered := delivered w @ [c]\<rparr>))"
| "sdo_step (TransportComplete bytes) w =
     Some (w\<lparr>layer := transport_complete (sdo_request (object w)) bytes (layer w)\<rparr>)"
| "sdo_step TransportFail w =
     Some (w\<lparr>layer := transport_fail (sdo_request (object w)) (layer w)\<rparr>)"
| "sdo_step _ w = Some w"

fun sdo_run :: "sdo_event list \<Rightarrow> sdo_world \<Rightarrow> sdo_world option" where
  "sdo_run [] w = Some w"
| "sdo_run (e # es) w = (case sdo_step e w of None \<Rightarrow> None | Some w' \<Rightarrow> sdo_run es w')"

text \<open>The world right after a construction that did not throw.\<close>

definition constructed ::
  "ptr \<Rightarrow> 16 word \<Rightarrow> 8 word \<Rightarrow> 64 word \<Rightarrow> ptr \<Rightarrow> ecrt \<Rightarrow> sdo_world option" where
  "constructed slave_config index subindex sz slave bus =
     (case SDORequest_new slave_config index subindex sz slave bus of
        (Inl e, bus') \<Rightarrow> None
      | (Inr r, bus') \<Rightarrow> Some \<lparr>object = r, layer = bus', delivered = []\<rparr>)"

text \<open>A layer with no request yet and room for \<open>n\<close>.\<close>

definition fresh_layer :: "nat \<Rightarrow> ecrt" where
  "fresh_layer n =
     \<lparr>request_at = (\<lambda>_. \<lparr>req_state = EC_REQUEST_UNUSED, req_data = []\<rparr>),
      allocated = 0, free_slots = n\<rparr>"

section \<open>\<^verbatim>\<open>class EcMaster\<close>\<close>

subsection \<open>The data members\<close>

text \<open>
  Modelled from the spec: the state snapshots of \<^verbatim>\<open>ecrt.h\<close> that the header keeps copies of
  (\<^verbatim>\<open>ec_master_state_t\<close>, \<^verbatim>\<open>ec_domain_state_t\<close>, \<^verbatim>\<open>ec_slave_config_state_t\<close>; the library's
  declarations are not part of the sources). Section 4.3: link up/down and the device count
  seen by the bus scan; the number of devices responding and the data-exchange-working
  flag; the online, operational and configuration-error flags. \<^verbatim>\<open>= {}\<close> zeroes them.
\<close>

record ec_master_state_t =
  slaves_responding :: "32 word"
  link_up :: bool

record ec_domain_state_t =
  working_counter :: "32 word"
  wc_state :: bool

record ec_slave_config_state_t =
  online :: bool
  operational :: bool
  config_error :: bool

text \<open>
  Modelled from the spec: a row of the domain's registration table (\<^verbatim>\<open>ec_pdo_entry_reg_t\<close>
  of \<^verbatim>\<open>ecrt.h\<close>): the device's bus address, the channel, and where the resolved byte
  offset and bit position are to be written.
\<close>

record ec_pdo_entry_reg_t =
  reg_alias :: "16 word"
  reg_position :: "16 word"
  reg_channel :: "32 word"
  reg_offset :: ptr
  reg_bit_position :: ptr

text \<open>\<^verbatim>\<open>struct DomainInfo::Entry\<close>, \<^verbatim>\<open>struct DomainInfo\<close> and \<^verbatim>\<open>struct SlaveInfo\<close>, as declared.\<close>

record Entry =
  entry_slave :: ptr
  entry_num_pdos :: int
  entry_offset :: ptr
  entry_bit_position :: ptr

record DomainInfo =
  domain :: ptr
  domain_state :: ec_domain_state_t
  domain_pd :: ptr
  domain_regs :: "ec_pdo_entry_reg_t list"
  entries :: "Entry list"

record SlaveInfo =
  info_slave :: ptr
  info_config :: ptr
  info_config_state :: ec_slave_config_state_t

text \<open>
  The private data members of \<^verbatim>\<open>EcMaster\<close>, in the order of the header; member \<^verbatim>\<open>x_\<close> is
  the field \<open>x\<close>. The two time points are ticks of the system clock; the map from domain
  index to \<^verbatim>\<open>DomainInfo*\<close> is an association list.
\<close>

record EcMaster =
  running :: bool
  start_t :: int
  curr_t :: int
  sdo_requests :: "SDORequest list"
  master :: ptr
  master_state :: ec_master_state_t
  domain_info :: "(32 word \<times> DomainInfo) list"
  slave_info :: "SlaveInfo list"
  update_counter :: "64 word"
  check_state_frequency :: "32 word"
  interval :: "32 word"

text \<open>
  A new engine, by the default member initialisers of the header:
  \<^verbatim>\<open>running_ = false\<close>, \<^verbatim>\<open>master_ = NULL\<close>, \<^verbatim>\<open>master_state_ = {}\<close>, \<^verbatim>\<open>update_counter_ = 0\<close>,
  \<^verbatim>\<open>check_state_frequency_ = 10\<close>; the containers are empty and the time points are the
  clock's epoch. \<^verbatim>\<open>interval_\<close> has no initialiser: its first value is the argument.
\<close>

definition EcMaster_new :: "32 word \<Rightarrow> EcMaster" where
  "EcMaster_new interval0 =
     \<lparr>running = False, start_t = 0, curr_t = 0, sdo_requests = [],
      master = NULL, master_state = \<lparr>slaves_responding = 0, link_up = False\<rparr>,
      domain_info = [], slave_info = [],
      update_counter = 0, check_state_frequency = 10, interval = interval0\<rparr>"

subsection \<open>The member functions defined in the header\<close>

text \<open>\<^verbatim>\<open>virtual void stop() {running_ = false;}\<close>\<close>

definition stop :: "'a EcMaster_scheme \<Rightarrow> 'a EcMaster_scheme" where
  "stop e = e\<lparr>running := False\<rparr>"

text \<open>
  \<^verbatim>\<open>double\<close> arithmetic. A finite \<^verbatim>\<open>double\<close> is a rational number; \<open>double_round\<close> is the
  nearest binary64 value of a rational (53 significant bits, ties to even, exponents from
  \<open>-1022\<close>), or \<open>None\<close> when that is beyond the largest finite value.
\<close>

definition pow2 :: "int \<Rightarrow> rat" where
  "pow2 k = (if 0 \<le> k then 2 ^ nat k else 1 / 2 ^ nat (- k))"

text \<open>The exponent of a positive rational: \<open>pow2 (ilog2 x) \<le> x < pow2 (ilog2 x + 1)\<close>.\<close>

definition ilog2 :: "rat \<Rightarrow> int" where
  "ilog2 x =
     (if 1 \<le> x then bitlen \<lfloor>x\<rfloor> - 1 else - bitlen (\<lceil>1 / x\<rceil> - 1))"

definition round_half_even :: "rat \<Rightarrow> int" where
  "round_half_even x =
     (let n = \<lfloor>x\<rfloor>; d = x - of_int n
      in if d < 1 / 2 then n
         else if 1 / 2 < d then n + 1
         else if even n then n else n + 1)"

definition double_round :: "rat \<Rightarrow> rat option" where
  "double_round x =
     (if x = 0 then Some 0
      else
        let e = max (ilog2 \<bar>x\<bar>) (- 1022) - 52;
            y = of_int (round_half_even (x / pow2 e)) * pow2 e
        in if 2 ^ 1024 \<le> \<bar>y\<bar> then None else Some y)"

text \<open>\<^verbatim>\<open>a / b\<close> on finite doubles; \<open>None\<close> when the result is not finite.\<close>

definition double_div :: "rat \<Rightarrow> rat \<Rightarrow> rat option" where
  "double_div a b = (if b = 0 then None else double_round (a / b))"

text \<open>
  The conversion of a \<^verbatim>\<open>double\<close> to \<^verbatim>\<open>uint32_t\<close> drops the fraction (towards zero); when the
  result is not a value of \<^verbatim>\<open>uint32_t\<close> the conversion is undefined in C++: \<open>None\<close>.
\<close>

definition double_to_uint32 :: "rat \<Rightarrow> 32 word option" where
  "double_to_uint32 x =
     (let t = (if 0 \<le> x then \<lfloor>x\<rfloor> else \<lceil>x\<rceil>)
      in if 0 \<le> t \<and> t < 2 ^ 32 then Some (word_of_int t) else None)"

text \<open>\<^verbatim>\<open>void setCtrlFrequency(double frequency) { interval_ = 1000000000.0 / frequency; }\<close>\<close>

definition setCtrlFrequency :: "rat \<Rightarrow> 'a EcMaster_scheme \<Rightarrow> 'a EcMaster_scheme option" where
  "setCtrlFrequency frequency e =
     (case double_div 1000000000 frequency of
        None \<Rightarrow> None
      | Some q \<Rightarrow>
          (case double_to_uint32 q of
             None \<Rightarrow> None
           | Some i \<Rightarrow> Some (e\<lparr>interval := i\<rparr>)))"

text \<open>\<^verbatim>\<open>uint32_t getInterval() {return interval_;}\<close>\<close>

definition getInterval :: "'a EcMaster_scheme \<Rightarrow> 32 word" where
  "getInterval e = interval e"

subsection \<open>The member functions that the header only declares\<close>

text \<open>
  Modelled from the spec: \<^verbatim>\<open>elapsedCycles()\<close>, declared in the header ("number of EtherCAT
  updates since calling run"); its body is not part of the sources. Section 4.2: a read-only
  observer of the cycle counter.
\<close>

definition elapsedCycles :: "'a EcMaster_scheme \<Rightarrow> 64 word" where
  "elapsedCycles e = update_counter e"

text \<open>
  Modelled from the spec: \<^verbatim>\<open>elapsedTime()\<close>, declared in the header ("time of last ethercat
  update, since calling run"); its body is not part of the sources. Section 4.2: a read-only
  observer of the wall-clock time recorded since \<^verbatim>\<open>run()\<close> was entered. The value is in
  clock ticks; the conversion to seconds in a \<^verbatim>\<open>double\<close> is left out.
\<close>

definition elapsedTime :: "'a EcMaster_scheme \<Rightarrow> int" where
  "elapsedTime e = curr_t e - start_t e"

text \<open>
  Modelled from the spec: one iteration of the loop of \<^verbatim>\<open>run()\<close>; the bodies of \<^verbatim>\<open>run()\<close> and
  \<^verbatim>\<open>update()\<close> are not part of the sources. Section 4.2, steps 1 to 7: receive; on every
  N-th cycle (N the state-check interval) the State Monitor pass, which is the master, the
  domain and the per-device check of Section 4.3; decode; the user callback; encode; queue;
  then advance the cycle counter and record the time. The steps that only touch the bus or
  the devices are kept as the trace of the iteration. The callback is the function that
  says whether it calls \<^verbatim>\<open>stop()\<close> in this cycle; \<open>now\<close> is the clock reading of step 7.
\<close>

datatype cycle_step =
  Receive | Check_master_state | Check_domain_state | Check_slave_states
| Decode | User_callback | Encode | Queue_transmit

definition state_monitor_pass :: "cycle_step list" where
  "state_monitor_pass = [Check_master_state, Check_domain_state, Check_slave_states]"

definition state_check_due :: "'a EcMaster_scheme \<Rightarrow> bool" where
  "state_check_due e = (unat (check_state_frequency e) dvd unat (update_counter e))"

definition cycle ::
  "('a EcMaster_scheme \<Rightarrow> bool) \<Rightarrow> int \<Rightarrow> 'a EcMaster_scheme
     \<Rightarrow> cycle_step list \<times> 'a EcMaster_scheme" where
  "cycle user_callback now e =
     (let steps = [Receive] @ (if state_check_due e then state_monitor_pass else [])
                  @ [Decode, User_callback, Encode, Queue_transmit];
          e' = (if user_callback e then stop e else e)
      in (steps, e'\<lparr>update_counter := update_counter e' + 1, curr_t := now\<rparr>))"

text \<open>
  Modelled from the spec: the loop of \<^verbatim>\<open>run()\<close>: the flag is read at the top of each
  iteration, and the loop ends when it is false. The loop may run forever, so it has fuel:
  \<open>None\<close> when the fuel runs out while the flag is still set. \<open>clock k\<close> is the \<open>k\<close>-th
  reading of the clock. The result is the trace of every completed iteration and the
  engine at the end.
\<close>

fun run_loop ::
  "nat \<Rightarrow> ('a EcMaster_scheme \<Rightarrow> bool) \<Rightarrow> (nat \<Rightarrow> int) \<Rightarrow> 'a EcMaster_scheme
     \<Rightarrow> (cycle_step list list \<times> 'a EcMaster_scheme) option" where
  "run_loop 0 user_callback clock e = (if running e then None else Some ([], e))"
| "run_loop (Suc fuel) user_callback clock e =
     (if running e
      then (case cycle user_callback (clock 0) e of
              (steps, e') \<Rightarrow>
                (case run_loop fuel user_callback (\<lambda>k. clock (Suc k)) e' of
                   None \<Rightarrow> None
                 | Some (trace, e'') \<Rightarrow> Some (steps # trace, e'')))
      else Some ([], e))"

text \<open>
  Modelled from the spec: \<^verbatim>\<open>run(callback)\<close> enters the running state, records the start time
  and loops until \<^verbatim>\<open>stop()\<close> is called.
\<close>

definition run ::
  "nat \<Rightarrow> ('a EcMaster_scheme \<Rightarrow> bool) \<Rightarrow> (nat \<Rightarrow> int) \<Rightarrow> 'a EcMaster_scheme
     \<Rightarrow> (cycle_step list list \<times> 'a EcMaster_scheme) option" where
  "run fuel user_callback clock e =
     run_loop fuel user_callback (\<lambda>k. clock (Suc k)) (e\<lparr>running := True, start_t := clock 0\<rparr>)"

subsection \<open>Sequences of calls on one engine\<close>

text \<open>
  The calls on an engine that the development covers: the member functions defined in
  the header, the two observers, and \<^verbatim>\<open>run(callback)\<close> with its fuel, its callback and its
  clock. \<open>iterations\<close> is the number of loop iterations that a call completes.
\<close>

datatype 'a engine_call =
  Call_stop
| Call_setCtrlFrequency rat
| Call_getInterval
| Call_elapsedCycles
| Call_elapsedTime
| Call_run nat "'a EcMaster_scheme \<Rightarrow> bool" "nat \<Rightarrow> int"

fun is_run :: "'a engine_call \<Rightarrow> bool" where
  "is_run (Call_run fuel user_callback clock) = True"
| "is_run _ = False"

fun engine_step :: "'a engine_call \<Rightarrow> 'a EcMaster_scheme \<Rightarrow> 'a EcMaster_scheme option" where
  "engine_step Call_stop e = Some (stop e)"
| "engine_step (Call_setCtrlFrequency frequency) e = setCtrlFrequency frequency e"
| "engine_step (Call_run fuel user_callback clock) e =
     map_option snd (run fuel user_callback clock e)"
| "engine_step _ e = Some e"

fun iterations :: "'a engine_call \<Rightarrow> 'a EcMaster_scheme \<Rightarrow> nat" where
  "iterations (Call_run fuel user_callback clock) e =
     (case run fuel user_callback clock e of None \<Rightarrow> 0 | Some (trace, e') \<Rightarrow> length trace)"
| "iterations _ e = 0"

fun engine_calls :: "'a engine_call list \<Rightarrow> 'a EcMaster_scheme \<Rightarrow> 'a EcMaster_scheme option" where
  "engine_calls [] e = Some e"
| "engine_calls (c # cs) e =
     (case engine_step c e of None \<Rightarrow> None | Some e' \<Rightarrow> engine_calls cs e')"

text \<open>The loop iterations completed by a sequence of calls.\<close>

fun iterations_of :: "'a engine_call list \<Rightarrow> 'a EcMaster_scheme \<Rightarrow> nat" where
  "iterations_of [] e = 0"
| "iterations_of (c # cs) e =
     (case engine_step c e of None \<Rightarrow> 0 | Some e' \<Rightarrow> iterations c e + iterations_of cs e')"

text \<open>Whether the trace of an iteration holds the whole State Monitor pass, or none of it.\<close>

definition has_state_checks :: "cycle_step list \<Rightarrow> bool" where
  "has_state_checks steps =
     (Check_master_state \<in> set steps \<and> Check_domain_state \<in> set steps
      \<and> Check_slave_states \<in> set steps)"

definition no_state_checks :: "cycle_step list \<Rightarrow> bool" where
  "no_state_checks steps =
     (Check_master_state \<notin> set steps \<and> Check_domain_state \<notin> set steps
      \<and> Check_slave_states \<notin> set steps)"

section \<open>Proofs\<close>

subsection \<open>Mailbox requests\<close>

lemma sdo_step_object: "sdo_step ev w = Some w' \<Longrightarrow> object w' = object w"
  by (cases ev) (auto split: option.splits)

lemma sdo_run_object: "sdo_run evs w = Some w' \<Longrightarrow> object w' = object w"
proof (induction evs arbitrary: w)
  case Nil
  then show ?case by simp
next
  case (Cons ev evs)
  then show ?case by (auto split: option.splits dest: sdo_step_object)
qed

lemma sdo_step_unused:
  assumes "ev \<noteq> InitiateRead" and "sdo_step ev w = Some w'"
    and "ecrt_sdo_request_state (sdo_request (object w)) (layer w) = EC_REQUEST_UNUSED"
  shows "ecrt_sdo_request_state (sdo_request (object w')) (layer w') = EC_REQUEST_UNUSED"
  using assms
  by (cases ev) (auto simp: ecrt_sdo_request_state_def transport_complete_def transport_fail_def
      split: option.splits)

lemma sdo_run_unused:
  assumes "InitiateRead \<notin> set evs" and "sdo_run evs w = Some w'"
    and "ecrt_sdo_request_state (sdo_request (object w)) (layer w) = EC_REQUEST_UNUSED"
  shows "ecrt_sdo_request_state (sdo_request (object w')) (layer w') = EC_REQUEST_UNUSED"
  using assms
proof (induction evs arbitrary: w)
  case Nil
  then show ?case by simp
next
  case (Cons ev evs)
  from Cons.prems obtain w1 where s: "sdo_step ev w = Some w1" and r: "sdo_run evs w1 = Some w'"
    by (auto split: option.splits)
  from Cons.prems have "ev \<noteq> InitiateRead" and "InitiateRead \<notin> set evs" by auto
  with Cons.IH [OF _ r] sdo_step_unused [OF _ s] Cons.prems(3) show ?case by blast
qed

lemma constructed_Some:
  assumes "constructed sc index subindex sz slave bus = Some w0"
  shows "object w0 = \<lparr>sdo_slave = slave, sdo_request = Suc (allocated bus), sdo_size = sz,
                       sdo_index = index, sdo_subindex = subindex\<rparr>"
    and "req_state (request_at (layer w0) (Suc (allocated bus))) = EC_REQUEST_UNUSED"
    and "delivered w0 = []"
  using assms
  by (auto simp: constructed_def SDORequest_new_def ecrt_slave_config_create_sdo_request_def
      NULL_def split: if_splits)

lemma constructed_fresh:
  "constructed sc index subindex sz slave (fresh_layer (Suc n)) =
     Some \<lparr>object = \<lparr>sdo_slave = slave, sdo_request = Suc 0, sdo_size = sz,
                      sdo_index = index, sdo_subindex = subindex\<rparr>,
           layer = \<lparr>request_at = (\<lambda>_. \<lparr>req_state = EC_REQUEST_UNUSED, req_data = []\<rparr>)
                      (Suc 0 := \<lparr>req_state = EC_REQUEST_UNUSED, req_data = replicate (unat sz) 0\<rparr>),
                    allocated = Suc 0, free_slots = n\<rparr>,
           delivered = []\<rparr>"
  by (simp add: constructed_def SDORequest_new_def ecrt_slave_config_create_sdo_request_def
      fresh_layer_def NULL_def)

lemma uint16_little_endian:
  "unat (word_cat (b1 :: 8 word) (b0 :: 8 word) :: 16 word) = unat b0 + 256 * unat b1"
proof -
  have b0: "unat b0 < 256" using unsigned_less [of b0, where 'a = nat] by simp
  have b1: "unat b1 < 256" using unsigned_less [of b1, where 'a = nat] by simp
  have u0: "unat (ucast b0 :: 16 word) = unat b0"
    using b0 by (simp add: unsigned_ucast_eq take_bit_nat_eq_self)
  have u1: "unat (ucast b1 :: 16 word) = unat b1"
    using b1 by (simp add: unsigned_ucast_eq take_bit_nat_eq_self)
  have "unat (256 * ucast b1 + ucast b0 :: 16 word) = (256 * unat b1 + unat b0) mod 65536"
    by (simp add: unat_word_ariths u0 u1 mod_simps)
  also have "\<dots> = unat b0 + 256 * unat b1" using b0 b1 by simp
  finally show ?thesis by (simp add: word_cat_eq push_bit_eq_mult mult.commute)
qed

lemma processData_bytes:
  "getData r bus = b0 # b1 # rest \<Longrightarrow>
   processData r bus = Some (ProcessSDO (sdo_slave r) (sdo_index r) (word_cat b1 b0))"
  by (simp add: processData_def getData_def)

lemma read_complete_process:
  assumes "constructed sc index subindex sz slave bus = Some w0"
  shows "\<exists>w. sdo_run [InitiateRead, TransportComplete (b0 # b1 # rest), ProcessData] w0 = Some w
     \<and> isComplete (object w) (layer w)
     \<and> delivered w = [ProcessSDO slave index (word_cat b1 b0)]"
  using constructed_Some [OF assms]
  by (simp add: initiateRead_def ecrt_sdo_request_read_def transport_complete_def
      processData_def ecrt_sdo_request_data_def isComplete_def ecrt_sdo_request_state_def)

text \<open>
  Claim C1. A request that has never been armed by \<^verbatim>\<open>initiateRead()\<close> reports Unused: after
  a construction that did not throw and any sequence of member calls and transport polls
  without \<^verbatim>\<open>initiateRead()\<close>, \<^verbatim>\<open>isUnsed()\<close> is true and \<^verbatim>\<open>isComplete()\<close> is false; and \<^verbatim>\<open>isUnsed()\<close>
  is the test of the request's state for \<^verbatim>\<open>EC_REQUEST_UNUSED\<close>.
\<close>

theorem never_armed_reports_unused:
  assumes "constructed sc index subindex sz slave bus = Some w0"
    and "InitiateRead \<notin> set evs"
    and "sdo_run evs w0 = Some w"
  shows "isUnsed (object w) (layer w) \<and> \<not> isComplete (object w) (layer w)
    \<and> isUnsed r b = (ecrt_sdo_request_state (sdo_request r) b = EC_REQUEST_UNUSED)"
proof -
  have "ecrt_sdo_request_state (sdo_request (object w0)) (layer w0) = EC_REQUEST_UNUSED"
    using constructed_Some [OF assms(1)] by (simp add: ecrt_sdo_request_state_def)
  from sdo_run_unused [OF assms(2,3) this] show ?thesis
    by (simp add: isUnsed_def isComplete_def)
qed

theorem never_armed_reports_unused_witness:
  "\<exists>w0 w. constructed 1 0x6041 0 2 7 (fresh_layer 1) = Some w0
     \<and> sdo_run [IsUnsed, TransportComplete [0x2C, 0x01], IsComplete, ProcessData, TransportFail] w0 = Some w
     \<and> isUnsed (object w) (layer w) \<and> \<not> isComplete (object w) (layer w)"
proof -
  let ?evs = "[IsUnsed, TransportComplete [0x2C, 0x01], IsComplete, ProcessData, TransportFail]"
  obtain w0 where c: "constructed 1 0x6041 0 2 7 (fresh_layer 1) = Some w0"
    using constructed_fresh [of 1 "0x6041" 0 2 7 0] by simp
  have "unat (2 :: 64 word) = Suc (Suc 0)" by simp
  then have two: "replicate (unat (2 :: 64 word)) (0 :: 8 word) = [0, 0]"
    by (simp only: replicate.simps)
  have d: "ecrt_sdo_request_data (sdo_request (object w0)) (layer w0) = [0, 0]"
    using c constructed_fresh [of 1 "0x6041" 0 2 7 0] two
    by (auto simp: ecrt_sdo_request_data_def)
  have u: "req_state (request_at (layer w0) (sdo_request (object w0))) = EC_REQUEST_UNUSED"
    using constructed_Some [OF c] by simp
  obtain w where r: "sdo_run ?evs w0 = Some w"
    using d u by (simp add: transport_complete_def transport_fail_def processData_def)
  have "InitiateRead \<notin> set ?evs" by simp
  from never_armed_reports_unused [OF c this r] c r show ?thesis by blast
qed


text \<open>
  Claim C2. For a request whose state is Success, \<^verbatim>\<open>processData()\<close> copies a 2-byte unsigned
  integer out of the transport buffer and delivers it to the owning device's handler,
  \<^verbatim>\<open>slave_->processSDO(index_, value)\<close>, keyed by the request's object index; the first byte
  is the low byte, so the bytes \<open>0x2C 0x01\<close> are delivered as 300. The buffer holds at least
  the two bytes that are read.
\<close>

theorem processData_delivers_uint16:
  assumes "isComplete r bus"
    and "getData r bus = b0 # b1 # rest"
  shows "\<exists>v. processData r bus = Some (ProcessSDO (sdo_slave r) (getIndex r) v)
           \<and> unat v = unat b0 + 256 * unat b1"
  using processData_bytes [OF assms(2)] uint16_little_endian [of b1 b0]
  by (simp add: getIndex_def)

theorem processData_delivers_uint16_witness:
  "\<exists>w0 w. constructed 1 0x6041 0 2 7 (fresh_layer 1) = Some w0
     \<and> sdo_run [InitiateRead, TransportComplete [0x2C, 0x01]] w0 = Some w
     \<and> isComplete (object w) (layer w)
     \<and> getData (object w) (layer w) = [0x2C, 0x01]
     \<and> processData (object w) (layer w) = Some (ProcessSDO 7 0x6041 300)"
proof -
  obtain w0 where c: "constructed 1 0x6041 0 2 7 (fresh_layer 1) = Some w0"
    using constructed_fresh [of 1 "0x6041" 0 2 7 0] by simp
  note o = constructed_Some [OF c]
  obtain w where r: "sdo_run [InitiateRead, TransportComplete [0x2C, 0x01]] w0 = Some w"
    by simp
  have ok: "isComplete (object w) (layer w)"
    and d: "getData (object w) (layer w) = [0x2C, 0x01]"
    and i: "object w = object w0"
    using r o
    by (auto simp: initiateRead_def ecrt_sdo_request_read_def transport_complete_def
        isComplete_def ecrt_sdo_request_state_def getData_def ecrt_sdo_request_data_def)
  from processData_delivers_uint16 [OF ok d]
  obtain v where p: "processData (object w) (layer w) = Some (ProcessSDO (sdo_slave (object w)) (getIndex (object w)) v)"
    and v: "unat v = unat (0x2C :: 8 word) + 256 * unat (0x01 :: 8 word)"
    by blast
  from v have "unat v = unat (300 :: 16 word)" by simp
  then have "v = 300" by (simp only: word_unat_eq_iff)
  with p i o(1) c r ok d show ?thesis by (auto simp: getIndex_def)
qed

text \<open>
  Claim C8. When the transaction layer cannot create the request object and returns a null
  handle, the constructor throws \<^verbatim>\<open>std::runtime_error\<close>; when the layer returns a handle, the
  construction does not throw and the stored handle is that non-null handle.
\<close>

theorem construction_throws_on_null_handle:
  "(fst (ecrt_slave_config_create_sdo_request sc index subindex sz bus) = NULL \<longrightarrow>
      fst (SDORequest_new sc index subindex sz slave bus)
        = Inl (Runtime_error ''Failed to create SDO request''))
   \<and> (fst (ecrt_slave_config_create_sdo_request sc index subindex sz bus) \<noteq> NULL \<longrightarrow>
      (\<exists>r. fst (SDORequest_new sc index subindex sz slave bus) = Inr r
           \<and> sdo_request r = fst (ecrt_slave_config_create_sdo_request sc index subindex sz bus)
           \<and> sdo_request r \<noteq> NULL))"
  by (simp add: SDORequest_new_def split: prod.splits)

theorem construction_throws_on_null_handle_witness:
  "fst (ecrt_slave_config_create_sdo_request 1 0x6041 0 2 (fresh_layer 0)) = NULL
   \<and> fst (SDORequest_new 1 0x6041 0 2 7 (fresh_layer 0))
        = Inl (Runtime_error ''Failed to create SDO request'')
   \<and> fst (ecrt_slave_config_create_sdo_request 1 0x6041 0 2 (fresh_layer 1)) \<noteq> NULL
   \<and> (\<exists>r. fst (SDORequest_new 1 0x6041 0 2 7 (fresh_layer 1)) = Inr r \<and> sdo_request r \<noteq> NULL)"
proof -
  have n: "fst (ecrt_slave_config_create_sdo_request 1 0x6041 0 2 (fresh_layer 0)) = NULL"
    by (simp add: ecrt_slave_config_create_sdo_request_def fresh_layer_def)
  have s: "fst (ecrt_slave_config_create_sdo_request 1 0x6041 0 2 (fresh_layer 1)) \<noteq> NULL"
    by (simp add: ecrt_slave_config_create_sdo_request_def fresh_layer_def NULL_def)
  from construction_throws_on_null_handle [of 1 "0x6041" 0 2 "fresh_layer 0" 7] n
    construction_throws_on_null_handle [of 1 "0x6041" 0 2 "fresh_layer 1" 7] s
  show ?thesis by blast
qed

text \<open>
  Claim C9. Whatever byte size was given at construction, \<^verbatim>\<open>processData()\<close> copies exactly two
  bytes and delivers a 16-bit value: the stored size never influences the call, the result is
  the value of the first two bytes of the buffer however long the buffer is, and a request
  constructed with any size that completes with the bytes \<open>b0 b1 \<dots>\<close> delivers \<open>b0 + 256 * b1\<close>.
\<close>

theorem processData_ignores_size:
  "processData (r\<lparr>sdo_size := s\<rparr>) bus = processData r bus
   \<and> processData r bus =
       (case getData r bus of
          b0 # b1 # rest \<Rightarrow> Some (ProcessSDO (sdo_slave r) (sdo_index r) (word_cat b1 b0))
        | _ \<Rightarrow> None)
   \<and> (constructed sc index subindex sz slave bus = Some w0 \<longrightarrow>
        (\<exists>w. sdo_run [InitiateRead, TransportComplete (b0 # b1 # rest), ProcessData] w0 = Some w
           \<and> delivered w = [ProcessSDO slave index (word_cat b1 b0)]))"
proof (intro conjI impI)
  show "processData (r\<lparr>sdo_size := s\<rparr>) bus = processData r bus"
    by (simp add: processData_def split: option.splits)
  show "processData r bus =
       (case getData r bus of
          b0 # b1 # rest \<Rightarrow> Some (ProcessSDO (sdo_slave r) (sdo_index r) (word_cat b1 b0))
        | _ \<Rightarrow> None)"
    by (simp add: processData_def getData_def split: list.splits)
  assume "constructed sc index subindex sz slave bus = Some w0"
  from read_complete_process [OF this]
  show "\<exists>w. sdo_run [InitiateRead, TransportComplete (b0 # b1 # rest), ProcessData] w0 = Some w
           \<and> delivered w = [ProcessSDO slave index (word_cat b1 b0)]"
    by blast
qed

theorem processData_ignores_size_witness:
  "\<exists>w0 w. constructed 1 0x6041 0 8 7 (fresh_layer 1) = Some w0
     \<and> sdo_run [InitiateRead, TransportComplete [0x2C, 0x01, 0xFF, 0xFF], ProcessData] w0 = Some w
     \<and> delivered w = [ProcessSDO 7 0x6041 300]"
proof -
  obtain w0 where c: "constructed 1 0x6041 0 8 7 (fresh_layer 1) = Some w0"
    using constructed_fresh [of 1 "0x6041" 0 8 7 0] by simp
  have "(word_cat (0x01 :: 8 word) (0x2C :: 8 word) :: 16 word) = 300"
    by (simp add: word_cat_eq)
  with processData_ignores_size [where sc = 1 and index = "0x6041" and subindex = 0 and sz = 8
      and slave = 7 and bus = "fresh_layer 1" and ?w0.0 = w0 and ?b0.0 = "0x2C" and ?b1.0 = "0x01"
      and rest = "[0xFF, 0xFF]"] c
  show ?thesis by auto
qed


subsection \<open>The engine\<close>

lemma cycle_fields:
  "update_counter (snd (cycle cb now e)) = update_counter e + 1"
  "check_state_frequency (snd (cycle cb now e)) = check_state_frequency e"
  "running (snd (cycle cb now e)) = (running e \<and> \<not> cb e)"
  "curr_t (snd (cycle cb now e)) = now"
  by (simp_all add: cycle_def stop_def Let_def)

lemma cycle_steps:
  "fst (cycle cb now e) =
     [Receive] @ (if state_check_due e then state_monitor_pass else [])
       @ [Decode, User_callback, Encode, Queue_transmit]"
  by (simp add: cycle_def Let_def)

lemma run_loop_stopped: "\<not> running e \<Longrightarrow> run_loop fuel cb clock e = Some ([], e)"
  by (cases fuel) simp_all

lemma run_loop_returns:
  assumes "cb e"
  shows "run_loop (Suc fuel) cb clock e =
           (if running e then Some ([fst (cycle cb (clock 0) e)], snd (cycle cb (clock 0) e))
            else Some ([], e))"
proof (cases "running e")
  case False
  then show ?thesis by simp
next
  case True
  obtain steps e1 where c: "cycle cb (clock 0) e = (steps, e1)"
    by (cases "cycle cb (clock 0) e")
  from assms c have "\<not> running e1"
    by (auto simp: cycle_def stop_def Let_def)
  from run_loop_stopped [OF this, of fuel cb "\<lambda>k. clock (Suc k)"] True c show ?thesis
    by simp
qed

lemma run_loop_result:
  "run_loop fuel cb clock e = Some (trace, e') \<Longrightarrow>
     update_counter e' = update_counter e + of_nat (length trace)
     \<and> check_state_frequency e' = check_state_frequency e
     \<and> \<not> running e'"
proof (induction fuel arbitrary: clock e trace)
  case 0
  then show ?case by (simp split: if_splits)
next
  case (Suc fuel)
  show ?case
  proof (cases "running e")
    case False
    with Suc.prems show ?thesis by simp
  next
    case True
    obtain steps e1 where c: "cycle cb (clock 0) e = (steps, e1)" by (cases "cycle cb (clock 0) e")
    with True Suc.prems obtain tr where
      r: "run_loop fuel cb (\<lambda>k. clock (Suc k)) e1 = Some (tr, e')" and t: "trace = steps # tr"
      by (auto split: option.splits)
    from cycle_fields(1,2) [of cb "clock 0" e] c
    have "update_counter e1 = update_counter e + 1"
      and "check_state_frequency e1 = check_state_frequency e" by simp_all
    with Suc.IH [OF r] t show ?thesis by simp
  qed
qed

lemma run_loop_trace:
  "run_loop fuel cb clock e = Some (trace, e') \<Longrightarrow> k < length trace \<Longrightarrow>
     trace ! k =
       [Receive]
       @ (if unat (check_state_frequency e) dvd unat (update_counter e + of_nat k)
          then state_monitor_pass else [])
       @ [Decode, User_callback, Encode, Queue_transmit]"
proof (induction fuel arbitrary: clock e trace k)
  case 0
  then show ?case by (simp split: if_splits)
next
  case (Suc fuel)
  show ?case
  proof (cases "running e")
    case False
    with Suc.prems show ?thesis by simp
  next
    case True
    obtain steps e1 where c: "cycle cb (clock 0) e = (steps, e1)" by (cases "cycle cb (clock 0) e")
    with True Suc.prems obtain tr where
      r: "run_loop fuel cb (\<lambda>k. clock (Suc k)) e1 = Some (tr, e')" and t: "trace = steps # tr"
      by (auto split: option.splits)
    from cycle_fields(1,2) [of cb "clock 0" e] c
    have e1: "update_counter e1 = update_counter e + 1"
      "check_state_frequency e1 = check_state_frequency e" by simp_all
    show ?thesis
    proof (cases k)
      case 0
      with t c cycle_steps [of cb "clock 0" e] show ?thesis
        by (simp add: state_check_due_def)
    next
      case (Suc j)
      with Suc.prems t have "j < length tr" by simp
      from Suc.IH [OF r this] e1 Suc t show ?thesis by (simp add: add.assoc)
    qed
  qed
qed

lemma engine_step_counter:
  "engine_step c e = Some e' \<Longrightarrow>
     update_counter e' = update_counter e + of_nat (iterations c e)"
proof (cases c)
  case (Call_run fuel cb clock)
  assume "engine_step c e = Some e'"
  with Call_run obtain trace where
    r: "run fuel cb clock e = Some (trace, e')" by auto
  then have "run_loop fuel cb (\<lambda>k. clock (Suc k)) (e\<lparr>running := True, start_t := clock 0\<rparr>) = Some (trace, e')"
    by (simp add: run_def)
  from run_loop_result [OF this] r Call_run show ?thesis by simp
qed (auto simp: stop_def setCtrlFrequency_def split: option.splits)

lemma engine_calls_counter:
  "engine_calls cs e = Some e' \<Longrightarrow>
     update_counter e' = update_counter e + of_nat (iterations_of cs e)"
proof (induction cs arbitrary: e)
  case Nil
  then show ?case by simp
next
  case (Cons c cs)
  then obtain e1 where s: "engine_step c e = Some e1" and r: "engine_calls cs e1 = Some e'"
    by (auto split: option.splits)
  from Cons.IH [OF r] engine_step_counter [OF s] s show ?case by (simp add: add.assoc)
qed

lemma unat_add_no_wrap:
  fixes c :: "64 word"
  assumes "unat c + n < 2 ^ 64"
  shows "unat (c + of_nat n) = unat c + n"
proof -
  from assms have "n < 2 ^ 64" by simp
  then have "unat (of_nat n :: 64 word) = n" by (simp add: unat_of_nat)
  with assms show ?thesis by (simp add: unat_word_ariths)
qed

lemma engine_step_not_run:
  "\<not> is_run c \<Longrightarrow> engine_step c e = Some e' \<Longrightarrow>
     running e' = (running e \<and> c \<noteq> Call_stop) \<and> update_counter e' = update_counter e"
  by (cases c) (auto simp: stop_def setCtrlFrequency_def split: option.splits)

lemma engine_calls_not_run:
  "\<not> list_ex is_run cs \<Longrightarrow> engine_calls cs e = Some e' \<Longrightarrow> \<not> running e \<Longrightarrow>
     \<not> running e' \<and> update_counter e' = update_counter e"
proof (induction cs arbitrary: e)
  case Nil
  then show ?case by simp
next
  case (Cons c cs)
  then obtain e1 where s: "engine_step c e = Some e1" and r: "engine_calls cs e1 = Some e'"
    by (auto split: option.splits)
  from Cons.prems have "\<not> is_run c" "\<not> list_ex is_run cs" by simp_all
  with engine_step_not_run [OF _ s] Cons.IH [OF _ r] Cons.prems(3) show ?case by simp
qed


lemma run_three:
  "run (Suc (Suc (Suc 0))) (\<lambda>e. update_counter e = 2) (\<lambda>k. int k * 1000000) (EcMaster_new 1000000)
     = Some ([[Receive, Check_master_state, Check_domain_state, Check_slave_states,
               Decode, User_callback, Encode, Queue_transmit],
              [Receive, Decode, User_callback, Encode, Queue_transmit],
              [Receive, Decode, User_callback, Encode, Queue_transmit]],
             (EcMaster_new 1000000)\<lparr>running := False, start_t := 0, curr_t := 3000000,
                update_counter := 3\<rparr>)"
  by (simp add: run_def cycle_def stop_def Let_def state_check_due_def
      state_monitor_pass_def EcMaster_new_def)

text \<open>
  Claim C5. The cycle counter starts at zero in a new engine; one loop iteration of \<^verbatim>\<open>run()\<close>
  adds exactly 1 to it; over any sequence of calls it grows by the number of loop
  iterations completed, so it never decreases (below the \<open>2 ^ 64\<close> cycles that a
  \<^verbatim>\<open>uint64_t\<close> counts); \<^verbatim>\<open>stop()\<close> leaves it as it is, and after \<^verbatim>\<open>stop()\<close> the loop runs no further
  iteration, so the counter is frozen at its last value.
\<close>

theorem cycle_counter_monotone:
  "update_counter (EcMaster_new interval0) = 0
   \<and> update_counter (snd (cycle cb now e)) = update_counter e + 1
   \<and> (engine_calls cs e = Some e' \<longrightarrow>
        update_counter e' = update_counter e + of_nat (iterations_of cs e)
        \<and> (unat (update_counter e) + iterations_of cs e < 2 ^ 64 \<longrightarrow>
             unat (update_counter e') = unat (update_counter e) + iterations_of cs e
             \<and> unat (update_counter e) \<le> unat (update_counter e')))
   \<and> update_counter (stop e) = update_counter e
   \<and> run_loop fuel cb clock (stop e) = Some ([], stop e)"
proof (intro conjI impI)
  show "update_counter (EcMaster_new interval0) = 0" by (simp add: EcMaster_new_def)
  show "update_counter (snd (cycle cb now e)) = update_counter e + 1" by (rule cycle_fields(1))
  show "update_counter (stop e) = update_counter e" by (simp add: stop_def)
  show "run_loop fuel cb clock (stop e) = Some ([], stop e)"
    by (rule run_loop_stopped) (simp add: stop_def)
next
  assume r: "engine_calls cs e = Some e'"
  from engine_calls_counter [OF r]
  show c: "update_counter e' = update_counter e + of_nat (iterations_of cs e)" .
  assume "unat (update_counter e) + iterations_of cs e < 2 ^ 64"
  from unat_add_no_wrap [OF this] c
  show "unat (update_counter e') = unat (update_counter e) + iterations_of cs e"
    and "unat (update_counter e) \<le> unat (update_counter e')" by simp_all
qed

theorem cycle_counter_monotone_witness:
  "engine_calls
     [Call_getInterval,
      Call_run (Suc (Suc (Suc 0))) (\<lambda>e. update_counter e = 2) (\<lambda>k. int k * 1000000),
      Call_stop, Call_elapsedCycles]
     (EcMaster_new 1000000)
   = Some ((EcMaster_new 1000000)\<lparr>running := False, start_t := 0, curr_t := 3000000,
             update_counter := 3\<rparr>)
   \<and> unat (update_counter (EcMaster_new 1000000)) + 3 < (2 :: nat) ^ 64
   \<and> unat (update_counter ((EcMaster_new 1000000)\<lparr>running := False, start_t := 0,
             curr_t := 3000000, update_counter := 3\<rparr>)) = 0 + 3"
proof -
  let ?cs = "[Call_getInterval,
      Call_run (Suc (Suc (Suc 0))) (\<lambda>e. update_counter e = 2) (\<lambda>k. int k * 1000000),
      Call_stop, Call_elapsedCycles]"
  let ?e' = "(EcMaster_new 1000000)\<lparr>running := False, start_t := 0, curr_t := 3000000,
             update_counter := 3\<rparr>"
  have r: "engine_calls ?cs (EcMaster_new 1000000) = Some ?e'"
    by (simp add: run_three stop_def)
  have n: "iterations_of ?cs (EcMaster_new 1000000) = 3"
    by (simp add: run_three stop_def)
  have z: "unat (update_counter (EcMaster_new 1000000)) = 0"
    by (simp add: EcMaster_new_def)
  from cycle_counter_monotone [where cs = ?cs and e = "EcMaster_new 1000000" and e' = ?e'] r n z
  show ?thesis by simp
qed

text \<open>
  Claim C6. \<^verbatim>\<open>stop()\<close> only sets the running flag to false: the cycle counter, the start and
  current time, the domain tables, the slave records, the pending requests and every other
  member are unchanged, \<^verbatim>\<open>elapsedTime()\<close> and \<^verbatim>\<open>elapsedCycles()\<close> keep their values, and the loop
  runs no further cycle.
\<close>

theorem stop_only_clears_running:
  "stop e = e\<lparr>running := False\<rparr>
   \<and> \<not> running (stop e)
   \<and> update_counter (stop e) = update_counter e
   \<and> start_t (stop e) = start_t e
   \<and> curr_t (stop e) = curr_t e
   \<and> domain_info (stop e) = domain_info e
   \<and> slave_info (stop e) = slave_info e
   \<and> sdo_requests (stop e) = sdo_requests e
   \<and> master (stop e) = master e
   \<and> master_state (stop e) = master_state e
   \<and> check_state_frequency (stop e) = check_state_frequency e
   \<and> interval (stop e) = interval e
   \<and> EcMaster.more (stop e) = EcMaster.more e
   \<and> elapsedTime (stop e) = elapsedTime e
   \<and> elapsedCycles (stop e) = elapsedCycles e
   \<and> run_loop fuel cb clock (stop e) = Some ([], stop e)"
proof -
  have "run_loop fuel cb clock (stop e) = Some ([], stop e)"
    by (rule run_loop_stopped) (simp add: stop_def)
  then show ?thesis by (simp add: stop_def elapsedTime_def elapsedCycles_def)
qed

lemma state_checks_iff:
  "has_state_checks ([Receive] @ (if b then state_monitor_pass else [])
       @ [Decode, User_callback, Encode, Queue_transmit]) = b"
  "no_state_checks ([Receive] @ (if b then state_monitor_pass else [])
       @ [Decode, User_callback, Encode, Queue_transmit]) = (\<not> b)"
  by (simp_all add: has_state_checks_def no_state_checks_def state_monitor_pass_def)

text \<open>
  Claim C7. In \<^verbatim>\<open>run()\<close>, the State Monitor pass (the master, the domain and the per-device
  check) runs in a cycle exactly when the cycle number is a multiple of the state-check
  interval, and in no other cycle; with the default interval 10, cycle \<open>k\<close> of a run of a
  new engine has the pass exactly when 10 divides \<open>k\<close>.
\<close>

theorem state_checks_on_multiples:
  "has_state_checks (fst (cycle cb now e))
     = (unat (check_state_frequency e) dvd unat (update_counter e))
   \<and> no_state_checks (fst (cycle cb now e))
     = (\<not> unat (check_state_frequency e) dvd unat (update_counter e))
   \<and> (run fuel cb clock (EcMaster_new interval0) = Some (trace, e') \<longrightarrow> k < length trace \<longrightarrow>
        k < 2 ^ 64 \<longrightarrow>
        has_state_checks (trace ! k) = (10 dvd k) \<and> no_state_checks (trace ! k) = (\<not> 10 dvd k))"
proof (intro conjI impI)
  show "has_state_checks (fst (cycle cb now e))
     = (unat (check_state_frequency e) dvd unat (update_counter e))"
    by (simp only: cycle_steps state_checks_iff state_check_due_def)
  show "no_state_checks (fst (cycle cb now e))
     = (\<not> unat (check_state_frequency e) dvd unat (update_counter e))"
    by (simp only: cycle_steps state_checks_iff state_check_due_def)
next
  assume r: "run fuel cb clock (EcMaster_new interval0) = Some (trace, e')"
    and k: "k < length trace" and w: "k < 2 ^ 64"
  let ?e = "(EcMaster_new interval0)\<lparr>running := True, start_t := clock 0\<rparr>"
  from r have "run_loop fuel cb (\<lambda>k. clock (Suc k)) ?e = Some (trace, e')"
    by (simp add: run_def)
  note t = run_loop_trace [OF this k]
  have f: "unat (check_state_frequency ?e) = 10" by (simp add: EcMaster_new_def)
  have "unat (update_counter ?e + of_nat k) = k"
    using w by (simp add: EcMaster_new_def unat_of_nat)
  with f have d: "(unat (check_state_frequency ?e) dvd unat (update_counter ?e + of_nat k))
     = (10 dvd k)" by simp
  show "has_state_checks (trace ! k) = (10 dvd k)"
    by (simp only: t state_checks_iff d)
  show "no_state_checks (trace ! k) = (\<not> 10 dvd k)"
    by (simp only: t state_checks_iff d)
qed

theorem state_checks_on_multiples_witness:
  "run (Suc (Suc (Suc 0))) (\<lambda>e. update_counter e = 2) (\<lambda>k. int k * 1000000) (EcMaster_new 1000000)
     = Some ([[Receive, Check_master_state, Check_domain_state, Check_slave_states,
               Decode, User_callback, Encode, Queue_transmit],
              [Receive, Decode, User_callback, Encode, Queue_transmit],
              [Receive, Decode, User_callback, Encode, Queue_transmit]],
             (EcMaster_new 1000000)\<lparr>running := False, start_t := 0, curr_t := 3000000,
                update_counter := 3\<rparr>)
   \<and> has_state_checks [Receive, Check_master_state, Check_domain_state, Check_slave_states,
               Decode, User_callback, Encode, Queue_transmit]
   \<and> no_state_checks [Receive, Decode, User_callback, Encode, Queue_transmit]"
proof -
  let ?checked = "[Receive, Check_master_state, Check_domain_state, Check_slave_states,
               Decode, User_callback, Encode, Queue_transmit]"
  let ?plain = "[Receive, Decode, User_callback, Encode, Queue_transmit]"
  let ?e' = "(EcMaster_new 1000000)\<lparr>running := False, start_t := 0, curr_t := 3000000,
                update_counter := 3\<rparr>"
  note r = run_three
  from state_checks_on_multiples [where fuel = "Suc (Suc (Suc 0))"
      and clock = "\<lambda>k. int k * 1000000" and ?interval0.0 = 1000000
      and trace = "[?checked, ?plain, ?plain]" and e' = ?e' and k = 0,
      THEN conjunct2, THEN conjunct2, rule_format, OF r]
  have a: "has_state_checks ?checked" by simp
  from state_checks_on_multiples [where fuel = "Suc (Suc (Suc 0))"
      and clock = "\<lambda>k. int k * 1000000" and ?interval0.0 = 1000000
      and trace = "[?checked, ?plain, ?plain]" and e' = ?e' and k = 1,
      THEN conjunct2, THEN conjunct2, rule_format, OF r]
  have b: "no_state_checks ?plain" by simp
  from r a b show ?thesis by simp
qed

text \<open>
  Claim C10. A new engine is not running and its cycle counter is zero, and both stay so
  under every sequence of calls that does not enter \<^verbatim>\<open>run()\<close>; \<^verbatim>\<open>getIndex()\<close> and \<^verbatim>\<open>getSubindex()\<close>
  of a request return the index and subindex given at its construction, after any sequence
  of member calls and transport polls.
\<close>

theorem fresh_engine_and_request_identity:
  "\<not> running (EcMaster_new interval0)
   \<and> elapsedCycles (EcMaster_new interval0) = 0
   \<and> (\<not> list_ex is_run cs \<longrightarrow> engine_calls cs (EcMaster_new interval0) = Some e \<longrightarrow>
        \<not> running e \<and> elapsedCycles e = 0)
   \<and> (constructed sc index subindex sz slave bus = Some w0 \<longrightarrow>
        getIndex (object w0) = index \<and> getSubindex (object w0) = subindex
        \<and> (sdo_run evs w0 = Some w \<longrightarrow>
             getIndex (object w) = index \<and> getSubindex (object w) = subindex))"
proof (intro conjI impI)
  show "\<not> running (EcMaster_new interval0)" by (simp add: EcMaster_new_def)
  show z: "elapsedCycles (EcMaster_new interval0) = 0"
    by (simp add: EcMaster_new_def elapsedCycles_def)
  {
    assume "\<not> list_ex is_run cs" and "engine_calls cs (EcMaster_new interval0) = Some e"
    from engine_calls_not_run [OF this] z
    show "\<not> running e" and "elapsedCycles e = 0"
      by (simp_all add: EcMaster_new_def elapsedCycles_def)
  }
  {
    assume c: "constructed sc index subindex sz slave bus = Some w0"
    from constructed_Some(1) [OF c]
    show i: "getIndex (object w0) = index" and j: "getSubindex (object w0) = subindex"
      by (simp_all add: getIndex_def getSubindex_def)
    assume "sdo_run evs w0 = Some w"
    from sdo_run_object [OF this] i j
    show "getIndex (object w) = index" and "getSubindex (object w) = subindex"
      by simp_all
  }
qed


theorem fresh_engine_and_request_identity_witness:
  "\<not> list_ex is_run [Call_stop, Call_getInterval, Call_elapsedCycles, Call_elapsedTime]
   \<and> engine_calls [Call_stop, Call_getInterval, Call_elapsedCycles, Call_elapsedTime]
         (EcMaster_new 1000000) = Some (EcMaster_new 1000000)
   \<and> \<not> running (EcMaster_new 1000000)
   \<and> elapsedCycles (EcMaster_new 1000000) = 0
   \<and> (\<exists>w0 w. constructed 1 0x6041 3 2 7 (fresh_layer 1) = Some w0
        \<and> sdo_run [InitiateRead, IsUnsed, TransportComplete [0x2C, 0x01], IsComplete,
                    ProcessData, GetIndex] w0 = Some w
        \<and> getIndex (object w) = 0x6041 \<and> getSubindex (object w) = 3)"
proof -
  let ?cs = "[Call_stop, Call_getInterval, Call_elapsedCycles, Call_elapsedTime]"
  let ?evs = "[InitiateRead, IsUnsed, TransportComplete [0x2C, 0x01], IsComplete,
                    ProcessData, GetIndex]"
  have n: "\<not> list_ex is_run ?cs" by simp
  have r: "engine_calls ?cs (EcMaster_new 1000000) = Some (EcMaster_new 1000000)"
    by (simp add: stop_def EcMaster_new_def)
  obtain w0 where c: "constructed 1 0x6041 3 2 7 (fresh_layer 1) = Some w0"
    using constructed_fresh [of 1 "0x6041" 3 2 7 0] by simp
  note o = constructed_Some [OF c]
  obtain w where s: "sdo_run ?evs w0 = Some w"
    using o by (simp add: initiateRead_def ecrt_sdo_request_read_def transport_complete_def
        processData_def ecrt_sdo_request_data_def)
  from fresh_engine_and_request_identity [where cs = ?cs and ?interval0.0 = 1000000
      and e = "EcMaster_new 1000000" and sc = 1 and index = "0x6041" and subindex = 3
      and sz = 2 and slave = 7 and bus = "fresh_layer 1" and ?w0.0 = w0 and evs = ?evs and w = w]
    n r c s
  show ?thesis by blast
qed

subsection \<open>The cycle period\<close>

lemma pow2_power_int: "pow2 k = power_int 2 k"
proof (cases "0 \<le> k")
  case True
  then show ?thesis by (simp only: pow2_def power_int_def if_True)
next
  case False
  have "(1 :: rat) / 2 ^ nat (- k) = inverse 2 ^ nat (- k)"
    by (simp only: power_inverse divide_inverse mult_1)
  with False show ?thesis by (simp only: pow2_def power_int_def if_False)
qed

lemma pow2_pos: "0 < pow2 k"
  by (simp add: pow2_def)

lemma pow2_add: "pow2 (j + k) = pow2 j * pow2 k"
  by (simp add: pow2_power_int power_int_add)

lemma ilog2_lower:
  assumes "0 < x"
  shows "pow2 (ilog2 x) \<le> x"
proof (cases "1 \<le> x")
  case True
  then have n: "0 < \<lfloor>x\<rfloor>" by linarith
  from bitlen_bounds [OF n] have b: "2 ^ nat (bitlen \<lfloor>x\<rfloor> - 1) \<le> \<lfloor>x\<rfloor>" by simp
  from n have "1 \<le> bitlen \<lfloor>x\<rfloor>" using bitlen_eq_zero_iff [of "\<lfloor>x\<rfloor>"] bitlen_nonneg [of "\<lfloor>x\<rfloor>"]
    by linarith
  then have "pow2 (ilog2 x) = 2 ^ nat (bitlen \<lfloor>x\<rfloor> - 1)"
    using True by (simp add: ilog2_def pow2_def)
  also have "\<dots> = of_int (2 ^ nat (bitlen \<lfloor>x\<rfloor> - 1))" by simp
  also have "\<dots> \<le> of_int \<lfloor>x\<rfloor>" using b by (simp only: of_int_le_iff)
  also have "\<dots> \<le> x" by simp
  finally show ?thesis .
next
  case False
  let ?c = "\<lceil>1 / x\<rceil> - 1"
  from False assms have "1 < 1 / x" by (simp add: field_simps)
  then have c: "0 < ?c" by linarith
  from bitlen_bounds [OF c] have "?c < 2 ^ nat (bitlen ?c)" by simp
  then have "\<lceil>1 / x\<rceil> \<le> 2 ^ nat (bitlen ?c)" by linarith
  then have "of_int \<lceil>1 / x\<rceil> \<le> (of_int (2 ^ nat (bitlen ?c)) :: rat)"
    by (simp only: of_int_le_iff)
  moreover have "1 / x \<le> of_int \<lceil>1 / x\<rceil>" by (rule le_of_int_ceiling)
  ultimately have "1 / x \<le> (of_int (2 ^ nat (bitlen ?c)) :: rat)" by (rule order_trans [rotated])
  then have "1 / x \<le> 2 ^ nat (bitlen ?c)" by (simp only: of_int_power of_int_numeral)
  with assms have u: "1 / 2 ^ nat (bitlen ?c) \<le> x"
    by (simp add: field_simps)
  from c have "0 < bitlen ?c" using bitlen_eq_zero_iff [of ?c] bitlen_nonneg [of ?c]
    by linarith
  then have "pow2 (ilog2 x) = 1 / 2 ^ nat (bitlen ?c)"
    using False by (simp add: ilog2_def pow2_def)
  with u show ?thesis by simp
qed

lemma round_half_even_near: "\<bar>of_int (round_half_even x) - x\<bar> \<le> 1 / 2"
proof -
  define n where "n = \<lfloor>x\<rfloor>"
  define d where "d = x - of_int n"
  have d: "0 \<le> d" "d < 1" unfolding d_def n_def by linarith+
  have x: "x = of_int n + d" by (simp add: d_def)
  have r: "round_half_even x =
      (if d < 1 / 2 then n else if 1 / 2 < d then n + 1 else if even n then n else n + 1)"
    by (simp only: round_half_even_def Let_def n_def d_def)
  show ?thesis
  proof (cases "d < 1 / 2")
    case True
    with d r x show ?thesis by simp
  next
    case False
    with d r x show ?thesis by (cases "1 / 2 < d"; cases "even n") auto
  qed
qed

lemma round_half_even_nonneg: "0 \<le> x \<Longrightarrow> 0 \<le> round_half_even x"
  by (auto simp: round_half_even_def Let_def)

lemma double_round_nonneg:
  assumes "0 \<le> x" and "double_round x = Some y"
  shows "0 \<le> y"
proof (cases "x = 0")
  case True
  with assms show ?thesis by (simp add: double_round_def)
next
  case False
  let ?e = "max (ilog2 \<bar>x\<bar>) (- 1022) - 52"
  from assms(2) False have y: "y = of_int (round_half_even (x / pow2 ?e)) * pow2 ?e"
    by (simp add: double_round_def Let_def split: if_splits)
  from assms(1) pow2_pos [of ?e] have "0 \<le> x / pow2 ?e" by simp
  from round_half_even_nonneg [OF this] pow2_pos [of ?e] y show ?thesis by simp
qed

lemma double_round_error:
  assumes "pow2 (- 1022) \<le> x" and "double_round x = Some y"
  shows "\<bar>y - x\<bar> \<le> x / 2 ^ 53"
proof -
  from assms(1) pow2_pos [of "- 1022"] have x: "0 < x" by linarith
  let ?E = "max (ilog2 \<bar>x\<bar>) (- 1022)"
  let ?s = "pow2 (?E - 52)"
  from assms(2) x have y: "y = of_int (round_half_even (x / ?s)) * ?s"
    by (simp add: double_round_def Let_def split: if_splits)
  have s: "0 < ?s" by (rule pow2_pos)
  have E: "pow2 ?E \<le> x"
  proof (cases "ilog2 \<bar>x\<bar> \<le> - 1022")
    case True
    then have "?E = - 1022" by simp
    with assms(1) show ?thesis by simp
  next
    case False
    then have "?E = ilog2 x" using x by simp
    with ilog2_lower [OF x] show ?thesis by simp
  qed
  have "pow2 ?E = ?s * pow2 52" using pow2_add [of "?E - 52" 52] by simp
  also have "pow2 52 = 2 ^ 52" by (simp add: pow2_def)
  finally have sx: "?s * 2 ^ 52 \<le> x" using E by simp
  have "y - x = (of_int (round_half_even (x / ?s)) - x / ?s) * ?s"
    using s by (simp add: y left_diff_distrib)
  then have "\<bar>y - x\<bar> = \<bar>of_int (round_half_even (x / ?s)) - x / ?s\<bar> * \<bar>?s\<bar>"
    by (simp only: abs_mult)
  also have "\<bar>?s\<bar> = ?s" using s by simp
  finally have "\<bar>y - x\<bar> = \<bar>of_int (round_half_even (x / ?s)) - x / ?s\<bar> * ?s" .
  also have "\<dots> \<le> (1 / 2) * ?s"
    using round_half_even_near [of "x / ?s"] s by (intro mult_right_mono) simp_all
  also have "\<dots> \<le> x / 2 ^ 53" using sx by (simp add: field_simps)
  finally show ?thesis .
qed


lemma double_to_uint32_floor:
  assumes "0 \<le> q" and "q < 2 ^ 32"
  shows "double_to_uint32 q = Some (word_of_int \<lfloor>q\<rfloor>)"
    and "int (unat (word_of_int \<lfloor>q\<rfloor> :: 32 word)) = \<lfloor>q\<rfloor>"
proof -
  from assms(1) have lo: "0 \<le> \<lfloor>q\<rfloor>" by simp
  have "q < of_int (2 ^ 32)" using assms(2) by simp
  then have hi: "\<lfloor>q\<rfloor> < 2 ^ 32" by (simp only: floor_less_iff)
  from lo hi assms(1) show "double_to_uint32 q = Some (word_of_int \<lfloor>q\<rfloor>)"
    by (simp add: double_to_uint32_def)
  from lo hi show "int (unat (word_of_int \<lfloor>q\<rfloor> :: 32 word)) = \<lfloor>q\<rfloor>"
    by (simp add: unsigned_of_int take_bit_int_eq_self)
qed

lemma three_hertz: "double_div 1000000000 3 = Some (5592405333333333 / 16777216)"
  by code_simp

text \<open>
  Claim C4, as amended. For a positive frequency \<open>f\<close> whose period fits \<^verbatim>\<open>uint32_t\<close>, after
  \<^verbatim>\<open>setCtrlFrequency(f)\<close> the value of \<^verbatim>\<open>getInterval()\<close> is the \<^verbatim>\<open>double\<close> quotient \<open>1e9 / f\<close> with its
  fraction dropped; the quotient itself is within a relative \<open>2 ^ -53\<close> of \<open>1e9 / f\<close> for every
  finite \<open>f\<close>.
\<close>

theorem setCtrlFrequency_truncates:
  assumes "0 < f" and "double_div 1000000000 f = Some q" and "q < 2 ^ 32"
  shows "setCtrlFrequency f e = Some (e\<lparr>interval := word_of_int \<lfloor>q\<rfloor>\<rparr>)
     \<and> int (unat (getInterval (e\<lparr>interval := word_of_int \<lfloor>q\<rfloor>\<rparr>))) = \<lfloor>q\<rfloor>
     \<and> 0 \<le> q
     \<and> (f \<le> 2 ^ 1024 \<longrightarrow> \<bar>q - 1000000000 / f\<bar> \<le> (1000000000 / f) / 2 ^ 53)"
proof -
  from assms(1,2) have r: "double_round (1000000000 / f) = Some q"
    by (simp add: double_div_def)
  from assms(1) have "0 \<le> 1000000000 / f" by simp
  from double_round_nonneg [OF this r] have q: "0 \<le> q" .
  note u = double_to_uint32_floor [OF q assms(3)]
  have "\<bar>q - 1000000000 / f\<bar> \<le> (1000000000 / f) / 2 ^ 53" if "f \<le> 2 ^ 1024"
  proof -
    have "pow2 (- 1022) * f \<le> pow2 (- 1022) * 2 ^ 1024"
      using that pow2_pos [of "- 1022"] by (intro mult_left_mono) simp_all
    also have "\<dots> = 4" by (simp add: pow2_def)
    finally have "pow2 (- 1022) * f \<le> 1000000000" by simp
    with assms(1) have "pow2 (- 1022) \<le> 1000000000 / f" by (simp add: field_simps)
    from double_round_error [OF this r] show ?thesis .
  qed
  with q u assms(2) show ?thesis by (simp add: setCtrlFrequency_def getInterval_def)
qed

theorem setCtrlFrequency_truncates_witness:
  "(0 :: rat) < 3
   \<and> double_div 1000000000 3 = Some (5592405333333333 / 16777216)
   \<and> (5592405333333333 / 16777216 :: rat) < 2 ^ 32
   \<and> setCtrlFrequency 3 (EcMaster_new 0) = Some ((EcMaster_new 0)\<lparr>interval := 333333333\<rparr>)
   \<and> unat (getInterval ((EcMaster_new 0)\<lparr>interval := 333333333\<rparr>)) = 333333333"
proof -
  have f: "(0 :: rat) < 3" by simp
  have b: "(5592405333333333 / 16777216 :: rat) < 2 ^ 32" by simp
  have fl: "\<lfloor>5592405333333333 / 16777216 :: rat\<rfloor> = 333333333" by (simp add: floor_eq_iff)
  from setCtrlFrequency_truncates [OF f three_hertz b, of "EcMaster_new 0"] fl f b three_hertz
  show ?thesis by (simp add: getInterval_def)
qed

text \<open>
  The period is not \<open>1e9 / f\<close> in general: at 3 Hz the engine has 333333333 ns, and no
  whole number of nanoseconds is \<open>1e9 / 3\<close>; at 0.125 Hz the period, 8000000000 ns, is
  not a value of \<^verbatim>\<open>uint32_t\<close> and the conversion has no defined result.
\<close>

theorem setCtrlFrequency_not_exact:
  "map_option getInterval (setCtrlFrequency 3 (EcMaster_new 0)) = Some 333333333
   \<and> rat_of_nat (unat (333333333 :: 32 word)) \<noteq> 1000000000 / 3
   \<and> map_option getInterval (setCtrlFrequency (1 / 8) (EcMaster_new 0)) = None"
proof (intro conjI)
  show "map_option getInterval (setCtrlFrequency 3 (EcMaster_new 0)) = Some 333333333"
    by code_simp
  show "rat_of_nat (unat (333333333 :: 32 word)) \<noteq> 1000000000 / 3"
    by simp
  show "map_option getInterval (setCtrlFrequency (1 / 8) (EcMaster_new 0)) = None"
    by code_simp
qed

end
